theory Spec2Isabelle
  imports Main "HOL-Library.Char_ord" "HOL-Library.List_Lexorder"
begin

section \<open>Python strings\<close>

text \<open>
  A Python \<open>str\<close> is modelled as a \<open>string\<close>; a \<open>char\<close> is read as a code point
  below 256. The helpers below are the string methods that \<open>sanctions_app.py\<close> calls.
\<close>

definition code :: "char \<Rightarrow> nat" where
  "code c = of_char c"

definition NL :: char where
  "NL = CHR 0x0A"

definition is_space :: "char \<Rightarrow> bool" where
  \<comment> \<open>\<open>str.isspace\<close> and the class \<open>\s\<close> of \<open>re\<close> on code points below 256\<close>
  "is_space c = (let n = code c in
     (9 \<le> n \<and> n \<le> 13) \<or> (28 \<le> n \<and> n \<le> 32) \<or> n = 133 \<or> n = 160)"

definition is_digit :: "char \<Rightarrow> bool" where
  "is_digit c = (let n = code c in 48 \<le> n \<and> n \<le> 57)"

definition is_upper_az :: "char \<Rightarrow> bool" where
  "is_upper_az c = (let n = code c in 65 \<le> n \<and> n \<le> 90)"

definition is_lower_az :: "char \<Rightarrow> bool" where
  "is_lower_az c = (let n = code c in 97 \<le> n \<and> n \<le> 122)"

definition lower_char :: "char \<Rightarrow> char" where
  "lower_char c = (let n = code c in
     if (65 \<le> n \<and> n \<le> 90) \<or> (192 \<le> n \<and> n \<le> 222 \<and> n \<noteq> 215) then char_of (n + 32) else c)"

definition lower :: "string \<Rightarrow> string" where
  "lower s = map lower_char s"

definition strip_with :: "(char \<Rightarrow> bool) \<Rightarrow> string \<Rightarrow> string" where
  "strip_with p s = rev (dropWhile p (rev (dropWhile p s)))"

definition strip :: "string \<Rightarrow> string" where
  \<comment> \<open>\<open>s.strip()\<close>\<close>
  "strip s = strip_with is_space s"

definition strip_chars :: "string \<Rightarrow> string \<Rightarrow> string" where
  \<comment> \<open>\<open>s.strip(chars)\<close>\<close>
  "strip_chars chars s = strip_with (\<lambda>c. c \<in> set chars) s"

fun contains :: "string \<Rightarrow> string \<Rightarrow> bool" where
  \<comment> \<open>\<open>sub in s\<close>\<close>
  "contains sub [] = (sub = [])"
| "contains sub (c # cs) = (take (length sub) (c # cs) = sub \<or> contains sub cs)"

function replace :: "string \<Rightarrow> string \<Rightarrow> string \<Rightarrow> string" where
  \<comment> \<open>\<open>s.replace(old, new)\<close> for a non-empty \<open>old\<close> (the source only passes
      \<open>'\n'\<close> and \<open>'na'\<close>): the non-overlapping occurrences, left to right\<close>
  "replace old new [] = []"
| "replace old new (c # cs) =
     (if old \<noteq> [] \<and> take (length old) (c # cs) = old
      then new @ replace old new (drop (length old) (c # cs))
      else c # replace old new cs)"
  by pat_completeness auto
termination
  by (relation "measure (\<lambda>(old, new, s). length s)") (auto simp: neq_Nil_conv)

fun join :: "string \<Rightarrow> string list \<Rightarrow> string" where
  \<comment> \<open>\<open>sep.join(xs)\<close>\<close>
  "join sep [] = []"
| "join sep [x] = x"
| "join sep (x # y # ys) = x @ sep @ join sep (y # ys)"

section \<open>Records and data frames\<close>

text \<open>
  Both extractors append dictionaries with the same eight keys to \<open>data\<close> and return
  \<open>pd.DataFrame(data)\<close>. A data frame is its column labels and its rows; a frame built
  from an empty list has no columns at all. \<open>df_search_vector\<close> holds the values of the
  column \<open>Search_Vector\<close> once \<open>main\<close> has added it.
\<close>

record sanction_record =
  Source :: string
  Reference_No :: string
  Name :: string
  Aliases :: string
  DOB :: string
  Designation :: string
  Nationality :: string
  Raw_Data :: string

record data_frame =
  df_columns :: "string list"
  df_rows :: "sanction_record list"
  df_search_vector :: "string list option"

definition record_columns :: "string list" where
  "record_columns = [''Source'', ''Reference_No'', ''Name'', ''Aliases'', ''DOB'',
     ''Designation'', ''Nationality'', ''Raw_Data'']"

definition DataFrame :: "sanction_record list \<Rightarrow> data_frame" where
  \<comment> \<open>\<open>pd.DataFrame(data)\<close> for a list of dictionaries\<close>
  "DataFrame data =
     \<lparr>df_columns = (if data = [] then [] else record_columns),
      df_rows = data, df_search_vector = None\<rparr>"

section \<open>Documents\<close>

text \<open>
  \<open>pdfplumber\<close> is outside the program: a document is modelled by what its calls give.
  Opening the file and reading its pages may raise; so may \<open>extract_text\<close> and
  \<open>extract_tables\<close> of each page. A table cell is a string or \<open>None\<close>.
\<close>

datatype 'a outcome = Raises | Returns 'a

type_synonym cell = "string option"

type_synonym row = "cell list"

record page =
  extract_text :: "string option outcome"
  extract_tables :: "row list list outcome"

type_synonym pdf_file = "page list outcome"

section \<open>Tabular extractor: \<open>parse_kdn_pdf\<close>\<close>

definition truthy :: "cell \<Rightarrow> bool" where
  \<comment> \<open>the truth value of a cell or string: \<open>None\<close> and \<open>''\<close> are false\<close>
  "truthy v = (case v of None \<Rightarrow> False | Some s \<Rightarrow> s \<noteq> [])"

definition str_cell :: "cell \<Rightarrow> string" where
  \<comment> \<open>\<open>str(cell)\<close>\<close>
  "str_cell v = (case v of None \<Rightarrow> ''None'' | Some s \<Rightarrow> s)"

definition hex_digit :: "nat \<Rightarrow> char" where
  "hex_digit d = (if d < 10 then char_of (48 + d) else char_of (87 + d))"

definition repr_char :: "char \<Rightarrow> char \<Rightarrow> string" where
  \<comment> \<open>one character inside \<open>repr(s)\<close>, \<open>q\<close> the quote in use\<close>
  "repr_char q c = (let n = code c in
     if c = q \<or> n = 92 then [CHR 0x5C, c]
     else if n = 9 then [CHR 0x5C, CHR ''t'']
     else if n = 10 then [CHR 0x5C, CHR ''n'']
     else if n = 13 then [CHR 0x5C, CHR ''r'']
     else if n < 32 \<or> (127 \<le> n \<and> n \<le> 160) \<or> n = 173
       then [CHR 0x5C, CHR ''x'', hex_digit (n div 16), hex_digit (n mod 16)]
     else [c])"

definition repr_str :: "string \<Rightarrow> string" where
  \<comment> \<open>\<open>repr(s)\<close>: double quotes only when \<open>s\<close> has a single quote and no double quote\<close>
  "repr_str s = (let q = (if CHR 0x27 \<in> set s \<and> CHR 0x22 \<notin> set s then CHR 0x22 else CHR 0x27)
     in [q] @ concat (map (repr_char q) s) @ [q])"

definition repr_cell :: "cell \<Rightarrow> string" where
  "repr_cell v = (case v of None \<Rightarrow> ''None'' | Some s \<Rightarrow> repr_str s)"

definition str_row :: "row \<Rightarrow> string" where
  \<comment> \<open>\<open>str(row)\<close> of a list\<close>
  "str_row r = ''['' @ join '', '' (map repr_cell r) @ '']''"

fun scan_ref :: "row \<Rightarrow> cell \<Rightarrow> cell" where
  \<comment> \<open>\<open>for cell in row: if cell and "KDN" in str(cell): ref = cell; break\<close>\<close>
  "scan_ref [] ref = ref"
| "scan_ref (c # cs) ref =
     (if truthy c \<and> contains ''KDN'' (str_cell c) then c else scan_ref cs ref)"

definition clean_cell :: "string \<Rightarrow> string \<Rightarrow> cell \<Rightarrow> string" where
  \<comment> \<open>\<open>str(v).replace('\n', sep) if v else dflt\<close>\<close>
  "clean_cell sep dflt v = (if truthy v then replace [NL] sep (str_cell v) else dflt)"

definition kdn_record :: "row \<Rightarrow> sanction_record" where
  \<comment> \<open>the body of \<open>if "KDN" in row_str:\<close>\<close>
  "kdn_record r =
     (let ref = scan_ref r (Some ''Unknown'');
          name = (if length r > 2 then r ! 2 else Some ''Unknown'');
          alias = (if length r > 7 then r ! 7 else Some '''');
          dob = (if length r > 5 then r ! 5 else Some '''');
          id_num = (if length r > 10 then r ! 10 else Some '''')
      in \<lparr>Source = ''MOHA Domestic List (Malaysia)'',
          Reference_No = clean_cell '' | '' ''N/A'' ref,
          Name = clean_cell '' '' ''N/A'' name,
          Aliases = clean_cell '' '' '''' alias,
          DOB = clean_cell '' | '' '''' dob,
          Designation = ''Specified Entity (Domestic)'',
          Nationality = ''Malaysia/Other'',
          Raw_Data = ''ID: '' @ clean_cell '' | '' '''' id_num\<rparr>)"

definition kdn_row :: "row \<Rightarrow> sanction_record option" where
  \<comment> \<open>one row: a record when \<open>"KDN" in str(row)\<close>, nothing otherwise\<close>
  "kdn_row r = (if contains ''KDN'' (str_row r) then Some (kdn_record r) else None)"

fun kdn_table :: "row list \<Rightarrow> sanction_record list \<Rightarrow> sanction_record list" where
  \<comment> \<open>\<open>for row in table\<close>, \<open>data\<close> threaded through\<close>
  "kdn_table [] data = data"
| "kdn_table (r # rs) data =
     kdn_table rs (case kdn_row r of None \<Rightarrow> data | Some x \<Rightarrow> data @ [x])"

fun kdn_tables :: "row list list \<Rightarrow> sanction_record list \<Rightarrow> sanction_record list" where
  "kdn_tables [] data = data"
| "kdn_tables (t # ts) data = kdn_tables ts (kdn_table t data)"

fun kdn_pages :: "page list \<Rightarrow> sanction_record list \<Rightarrow> sanction_record list" where
  \<comment> \<open>\<open>for page in pdf.pages\<close>; an exception leaves the loop with \<open>data\<close> as it is\<close>
  "kdn_pages [] data = data"
| "kdn_pages (p # ps) data =
     (case extract_tables p of
        Raises \<Rightarrow> data
      | Returns ts \<Rightarrow> kdn_pages ps (kdn_tables ts data))"

definition parse_kdn_pdf :: "pdf_file \<Rightarrow> data_frame" where
  "parse_kdn_pdf f =
     DataFrame (case f of Raises \<Rightarrow> [] | Returns ps \<Rightarrow> kdn_pages ps [])"

section \<open>Regular expressions\<close>

text \<open>
  The patterns of the source use literals, character classes, quantified character
  classes, concatenation and alternation. \<open>match_ends r s\<close> lists what is left of \<open>s\<close>
  after each way \<open>r\<close> can match a prefix of it, in the order in which the backtracking
  matcher of \<open>re\<close> tries them: a greedy quantifier longest first, a lazy one shortest
  first, the alternatives left to right.
\<close>

datatype cls = Dot | DotAll | Space | Digit | Upper | Lower | OneOf string

fun in_cls :: "cls \<Rightarrow> char \<Rightarrow> bool" where
  "in_cls Dot c = (c \<noteq> NL)"
| "in_cls DotAll c = True"
| "in_cls Space c = is_space c"
| "in_cls Digit c = is_digit c"
| "in_cls Upper c = is_upper_az c"
| "in_cls Lower c = is_lower_az c"
| "in_cls (OneOf cs) c = (c \<in> set cs)"

datatype regex =
    Lit string
  | Cls cls
  | Star cls
  | Plus cls
  | LazyPlus cls
  | Times nat cls
  | Seq regex regex
  | Alt regex regex

definition run :: "cls \<Rightarrow> string \<Rightarrow> nat" where
  \<comment> \<open>how many leading characters of \<open>s\<close> are in the class\<close>
  "run c s = length (takeWhile (in_cls c) s)"

fun match_ends :: "regex \<Rightarrow> string \<Rightarrow> string list" where
  "match_ends (Lit l) s = (if take (length l) s = l then [drop (length l) s] else [])"
| "match_ends (Cls c) s = (case s of [] \<Rightarrow> [] | x # xs \<Rightarrow> if in_cls c x then [xs] else [])"
| "match_ends (Star c) s = map (\<lambda>k. drop k s) (rev [0 ..< Suc (run c s)])"
| "match_ends (Plus c) s = map (\<lambda>k. drop k s) (rev [1 ..< Suc (run c s)])"
| "match_ends (LazyPlus c) s = map (\<lambda>k. drop k s) [1 ..< Suc (run c s)]"
| "match_ends (Times n c) s = (if n \<le> run c s then [drop n s] else [])"
| "match_ends (Seq a b) s = concat (map (match_ends b) (match_ends a s))"
| "match_ends (Alt a b) s = match_ends a s @ match_ends b s"

fun first_some :: "('a \<Rightarrow> 'b option) \<Rightarrow> 'a list \<Rightarrow> 'b option" where
  "first_some f [] = None"
| "first_some f (x # xs) = (case f x of Some y \<Rightarrow> Some y | None \<Rightarrow> first_some f xs)"

definition match_group :: "regex \<Rightarrow> regex \<Rightarrow> regex \<Rightarrow> string \<Rightarrow> string option" where
  \<comment> \<open>the pattern \<open>pre(grp)post\<close> matched at the start of \<open>s\<close>: group 1 of the first
      successful way\<close>
  "match_group pre grp post s =
     first_some (\<lambda>s1.
       first_some (\<lambda>s2.
         if match_ends post s2 = [] then None else Some (take (length s1 - length s2) s1))
         (match_ends grp s1))
       (match_ends pre s)"

fun search_group :: "regex \<Rightarrow> regex \<Rightarrow> regex \<Rightarrow> string \<Rightarrow> string option" where
  \<comment> \<open>\<open>re.search\<close>: the leftmost position where the pattern matches\<close>
  "search_group pre grp post [] = match_group pre grp post []"
| "search_group pre grp post (c # cs) =
     (case match_group pre grp post (c # cs) of
        Some g \<Rightarrow> Some g
      | None \<Rightarrow> search_group pre grp post cs)"

function sub :: "regex \<Rightarrow> string \<Rightarrow> string \<Rightarrow> string" where
  \<comment> \<open>\<open>re.sub(r, rep, s)\<close> for a pattern that matches no empty string\<close>
  "sub r rep [] = []"
| "sub r rep (c # cs) =
     (case match_ends r (c # cs) of
        [] \<Rightarrow> c # sub r rep cs
      | rest # _ \<Rightarrow>
          if length rest < length (c # cs) then rep @ sub r rep rest
          else c # sub r rep cs)"
  by pat_completeness auto
termination
  by (relation "measure (\<lambda>(r, rep, s). length s)") auto

function split_on :: "regex \<Rightarrow> string \<Rightarrow> string \<Rightarrow> string list" where
  \<comment> \<open>\<open>re.split(r, s)\<close> for a pattern that matches no empty string; \<open>piece\<close> is the
      text since the last separator\<close>
  "split_on r piece [] = [piece]"
| "split_on r piece (c # cs) =
     (case match_ends r (c # cs) of
        [] \<Rightarrow> split_on r (piece @ [c]) cs
      | rest # _ \<Rightarrow>
          if length rest < length (c # cs) then piece # split_on r [] rest
          else split_on r (piece @ [c]) cs)"
  by pat_completeness auto
termination
  by (relation "measure (\<lambda>(r, piece, s). length s)") auto

fun split_lookahead :: "regex \<Rightarrow> string \<Rightarrow> string \<Rightarrow> string list" where
  \<comment> \<open>\<open>re.split('(?=r)', s)\<close>: the text is cut at every position where \<open>r\<close> matches\<close>
  "split_lookahead r piece [] = [piece]"
| "split_lookahead r piece (c # cs) =
     (if match_ends r (c # cs) \<noteq> [] then piece # split_lookahead r [c] cs
      else split_lookahead r (piece @ [c]) cs)"

section \<open>Narrative extractor: \<open>parse_un_style_pdf\<close>\<close>

definition ref_pattern :: regex where
  \<comment> \<open>\<open>[A-Z]{2}[i|e]\.\d+\<close>\<close>
  "ref_pattern =
     Seq (Times 2 Upper) (Seq (Cls (OneOf ''i|e'')) (Seq (Lit ''.'') (Plus Digit)))"

definition boundary_pattern :: regex where
  \<comment> \<open>\<open>\s+[A-Z]{2}[i|e]\.\d+\<close>, the body of the lookahead\<close>
  "boundary_pattern = Seq (Plus Space) ref_pattern"

definition marker :: regex where
  \<comment> \<open>\<open>\d+:\<close>, the pattern of the ordinal markers\<close>
  "marker = Seq (Plus Digit) (Lit '':'')"

definition name_terminator :: regex where
  \<comment> \<open>\<open>\s+(?:Name \(original|Title:|Designation:|DOB:)\<close>\<close>
  "name_terminator =
     Seq (Plus Space)
       (Alt (Lit ''Name (original'') (Alt (Lit ''Title:'') (Alt (Lit ''Designation:'') (Lit ''DOB:''))))"

definition name_match :: "string \<Rightarrow> string option" where
  \<comment> \<open>group 1 of \<open>Name:\s*(.+?)\s+(?:Name \(original|Title:|Designation:|DOB:)\<close>, DOTALL\<close>
  "name_match entry =
     search_group (Seq (Lit ''Name:'') (Star Space)) (LazyPlus DotAll) name_terminator entry"

definition entry_name :: "string \<Rightarrow> string" where
  "entry_name entry =
     (case name_match entry of
        Some raw_name \<Rightarrow>
          (let clean_name = sub marker '''' raw_name;
               clean_name = strip (replace [NL] '' '' (replace ''na'' '''' clean_name))
           in sub (Plus Space) '' '' clean_name)
      | None \<Rightarrow> ''Unknown Name'')"

definition alias_section :: "string \<Rightarrow> string option" where
  \<comment> \<open>group 2 of \<open>(Good quality a\.k\.a\.:|Low quality a\.k\.a\.:)(.+?)(Nationality:|Passport
      no:|National identification|Address:)\<close>, DOTALL\<close>
  "alias_section entry =
     search_group
       (Alt (Lit ''Good quality a.k.a.:'') (Lit ''Low quality a.k.a.:''))
       (LazyPlus DotAll)
       (Alt (Lit ''Nationality:'') (Alt (Lit ''Passport no:'')
          (Alt (Lit ''National identification'') (Lit ''Address:''))))
       entry"

definition entry_aliases :: "string \<Rightarrow> string list" where
  "entry_aliases entry =
     (case alias_section entry of
        Some g \<Rightarrow>
          (let raw_aliases = replace [NL] '' '' g;
               cleaned = split_on (Seq (Cls Lower) (Lit '')'')) [] raw_aliases
           in map (\<lambda>a. strip (strip_chars '' ;'' a))
                (filter (\<lambda>a. length a > 2 \<and> lower a \<noteq> ''na'') cleaned))
      | None \<Rightarrow> [])"

definition entry_dob :: "string \<Rightarrow> string" where
  \<comment> \<open>\<open>DOB:\s*(.+?)\s+(?:POB:|Good quality)\<close>, where \<open>.\<close> stops at a line break\<close>
  "entry_dob entry =
     (case search_group (Seq (Lit ''DOB:'') (Star Space)) (LazyPlus Dot)
             (Seq (Plus Space) (Alt (Lit ''POB:'') (Lit ''Good quality''))) entry of
        Some g \<Rightarrow> strip g
      | None \<Rightarrow> ''NA'')"

definition un_entry :: "string \<Rightarrow> string \<Rightarrow> sanction_record option" where
  \<comment> \<open>the body of \<open>for entry in entries\<close>: \<open>None\<close> where it runs into \<open>continue\<close>\<close>
  "un_entry list_name entry =
     (if strip entry = [] then None
      else case search_group (Lit []) ref_pattern (Lit []) entry of
        None \<Rightarrow> None
      | Some ref_no \<Rightarrow>
          Some \<lparr>Source = list_name,
                Reference_No = ref_no,
                Name = entry_name entry,
                Aliases = join '' | '' (entry_aliases entry),
                DOB = entry_dob entry,
                Designation = ''UN Sanctioned'',
                Nationality = ''International'',
                Raw_Data = take 300 entry\<rparr>)"

fun un_entries :: "string \<Rightarrow> string list \<Rightarrow> sanction_record list \<Rightarrow> sanction_record list" where
  "un_entries list_name [] data = data"
| "un_entries list_name (e # es) data =
     un_entries list_name es
       (case un_entry list_name e of None \<Rightarrow> data | Some x \<Rightarrow> data @ [x])"

fun read_pages :: "page list \<Rightarrow> string \<Rightarrow> string outcome" where
  \<comment> \<open>\<open>for page in pdf.pages: ... full_text += page_text + "\n"\<close>\<close>
  "read_pages [] full_text = Returns full_text"
| "read_pages (p # ps) full_text =
     (case extract_text p of
        Raises \<Rightarrow> Raises
      | Returns page_text \<Rightarrow>
          read_pages ps
            (if truthy page_text then full_text @ str_cell page_text @ [NL] else full_text))"

definition parse_un_style_pdf :: "pdf_file \<Rightarrow> string \<Rightarrow> data_frame" where
  "parse_un_style_pdf f list_name =
     DataFrame
       (case f of
          Raises \<Rightarrow> []
        | Returns ps \<Rightarrow>
            (case read_pages ps [] of
               Raises \<Rightarrow> []
             | Returns full_text \<Rightarrow>
                 un_entries list_name (split_lookahead boundary_pattern [] full_text) []))"

section \<open>Fuzzy matching: \<open>thefuzz\<close>\<close>

text \<open>
  Modelled from the spec: \<open>fuzz.token_set_ratio\<close> of the library \<open>thefuzz\<close>, which
  \<open>main\<close> passes as scorer, is not under src/. The spec (4.4) describes it as a
  similarity that tokenizes both strings, removes duplicate tokens and compares the
  sorted-unique-token representations, insensitive to token order, tolerant of missing or
  extra tokens, with an integer score between 0 and 100; its scenarios match names
  without regard to case. The spec leaves the normalisation open; the definitions take
  the one the library applies by default for this scorer: characters beyond ASCII are
  dropped, every character that is not an ASCII letter or digit becomes a space, letters
  are lowered and the ends are trimmed. An empty normalised string scores 0; otherwise
  the sorted common tokens are compared with the sorted common tokens followed by the
  sorted tokens of one side only, and the best of the three comparisons is the score.
  The character-level \<open>ratio\<close> is twice the length of a longest common subsequence over
  the sum of both lengths, as a percentage.
\<close>

definition ascii_only :: "string \<Rightarrow> string" where
  \<comment> \<open>the scorer's \<open>force_ascii\<close> step: characters with a code above 127 are dropped\<close>
  "ascii_only s = filter (\<lambda>c. code c < 128) s"

definition is_alnum :: "char \<Rightarrow> bool" where
  \<comment> \<open>an ASCII letter or digit\<close>
  "is_alnum c = (let n = code c in
     (48 \<le> n \<and> n \<le> 57) \<or> (65 \<le> n \<and> n \<le> 90) \<or> (97 \<le> n \<and> n \<le> 122))"

definition full_process :: "string \<Rightarrow> string" where
  "full_process s =
     strip (lower (map (\<lambda>c. if is_alnum c then c else CHR '' '') (ascii_only s)))"

fun tokens_from :: "string \<Rightarrow> string \<Rightarrow> string list" where
  \<comment> \<open>\<open>w\<close> is the token read so far\<close>
  "tokens_from w [] = (if w = [] then [] else [w])"
| "tokens_from w (c # cs) =
     (if is_space c then (if w = [] then [] else [w]) @ tokens_from [] cs
      else tokens_from (w @ [c]) cs)"

definition words :: "string \<Rightarrow> string list" where
  \<comment> \<open>\<open>s.split()\<close>\<close>
  "words s = tokens_from [] s"

fun lcs :: "string \<Rightarrow> string \<Rightarrow> nat" where
  "lcs [] t = 0"
| "lcs (x # xs) [] = 0"
| "lcs (x # xs) (y # ys) =
     (if x = y then Suc (lcs xs ys) else max (lcs xs (y # ys)) (lcs (x # xs) ys))"

definition ratio :: "string \<Rightarrow> string \<Rightarrow> nat" where
  \<comment> \<open>\<open>100 * 2 * lcs / (len s + len t)\<close>, to the nearest integer\<close>
  "ratio s t = (let total = length s + length t in
     if total = 0 then 100 else (400 * lcs s t + total) div (2 * total))"

text \<open>
  Modelled from the spec: the scorer \<open>fuzz.token_set_ratio\<close> itself (not under src/),
  put together from the parts above.
\<close>

definition token_set_ratio :: "string \<Rightarrow> string \<Rightarrow> nat" where
  "token_set_ratio s1 s2 =
     (let p1 = full_process s1; p2 = full_process s2
      in if p1 = [] \<or> p2 = [] then 0
         else
           (let tokens1 = words p1; tokens2 = words p2;
                intersection = sort (remdups (filter (\<lambda>t. t \<in> set tokens2) tokens1));
                diff1to2 = sort (remdups (filter (\<lambda>t. t \<notin> set tokens2) tokens1));
                diff2to1 = sort (remdups (filter (\<lambda>t. t \<notin> set tokens1) tokens2));
                sorted_sect = join '' '' intersection;
                combined_1to2 = strip (sorted_sect @ '' '' @ join '' '' diff1to2);
                combined_2to1 = strip (sorted_sect @ '' '' @ join '' '' diff2to1);
                sorted_sect = strip sorted_sect
            in max (ratio sorted_sect combined_1to2)
                 (max (ratio sorted_sect combined_2to1) (ratio combined_1to2 combined_2to1))))"

text \<open>
  Modelled from the spec: \<open>process.extract\<close> of \<open>thefuzz\<close> is not under src/. The spec
  (4.4): candidate generation returns at most \<open>limit\<close> highest-scoring choices, each with
  its score, ties broken by the original order (first occurrence wins, stable).
\<close>

definition process_extract ::
  "(string \<Rightarrow> string \<Rightarrow> nat) \<Rightarrow> string \<Rightarrow> string list \<Rightarrow> nat \<Rightarrow> (string \<times> nat) list" where
  "process_extract scorer query choices limit =
     take limit (sort_key (\<lambda>m. - int (snd m)) (map (\<lambda>c. (c, scorer query c)) choices))"

section \<open>The screening step of \<open>main\<close>\<close>

definition get_sample_data :: data_frame where
  "get_sample_data = DataFrame
     [\<lparr>Source = ''MOHA Domestic List (Malaysia)'', Reference_No = ''KDN.1.08-2014'',
       Name = ''Halimah binti Hussein'', Aliases = '''', DOB = ''9.12.1961'',
       Designation = ''Individual'', Nationality = ''Malaysia'',
       Raw_Data = ''ID: 611209-01-5514''\<rparr>,
      \<lparr>Source = ''MOHA Domestic List (Malaysia)'', Reference_No = ''KDN.1.04-2016'',
       Name = ''Nor Mahmudah binti Ahmad'', Aliases = ''Cik Mud'', DOB = ''1.1.1989'',
       Designation = ''Individual'', Nationality = ''Malaysia'',
       Raw_Data = ''ID: 890101-26-5006''\<rparr>,
      \<lparr>Source = ''UNSCR 1267/1989/2253 (ISIL/Al-Qaida)'', Reference_No = ''QDi.006'',
       Name = ''AIMAN MUHAMMED RABI AL-ZAWAHIRI'', Aliases = ''Ayman Al-Zawahari'',
       DOB = ''19 Jun. 1951'', Designation = ''Leader of Al-Qaida'', Nationality = ''Egypt'',
       Raw_Data = ''Reportedly deceased''\<rparr>,
      \<lparr>Source = ''UNSCR 1988 (Taliban)'', Reference_No = ''TAi.144'',
       Name = ''SIRAJUDDIN JALLALOUDINE HAQQANI'', Aliases = ''Siraj Haqqani | Khalifa'',
       DOB = ''1977-1978'', Designation = ''Deputy Commander'', Nationality = ''Afghanistan'',
       Raw_Data = ''Haqqani Network''\<rparr>,
      \<lparr>Source = ''UNSCR 1988 (Taliban)'', Reference_No = ''TAi.173'',
       Name = ''ABDUL BASIR NOORZAI'', Aliases = ''Haji Abdul Basir | Haji Basir Noorzai'',
       DOB = ''1965'', Designation = ''Haji'', Nationality = ''Afghanistan'',
       Raw_Data = ''Owner of Haji Basir and Zarjmil Company''\<rparr>,
      \<lparr>Source = ''UNSCR 1718 (DPRK)'', Reference_No = ''KPi.033'',
       Name = ''RI WON HO'', Aliases = '''', DOB = ''17 Jul. 1964'',
       Designation = ''Official'', Nationality = ''DPRK'',
       Raw_Data = ''Ministry of State Security''\<rparr>,
      \<lparr>Source = ''UNSCR 2231 (Iran)'', Reference_No = ''IRi.039'',
       Name = ''QASEM SOLEIMANI'', Aliases = ''Qasim Soleimani'', DOB = ''11 Mar. 1957'',
       Designation = ''Major General'', Nationality = ''Iran'',
       Raw_Data = ''Commander of Qods Force''\<rparr>]"

record uploads =
  file_moha :: "pdf_file option"
  file_1267 :: "pdf_file option"
  file_1988 :: "pdf_file option"
  file_1718 :: "pdf_file option"
  file_2231 :: "pdf_file option"

definition pd_concat :: "data_frame list \<Rightarrow> data_frame" where
  \<comment> \<open>\<open>pd.concat(frames, ignore_index=True)\<close> of a non-empty list: the union of the
      columns, the rows one frame after the other\<close>
  "pd_concat frames =
     \<lparr>df_columns = remdups (concat (map df_columns frames)),
      df_rows = concat (map df_rows frames),
      df_search_vector = None\<rparr>"

definition parsed_un :: "pdf_file option \<Rightarrow> string \<Rightarrow> data_frame list" where
  \<comment> \<open>\<open>if file: data_frames.append(parse_un_style_pdf(file, label))\<close>\<close>
  "parsed_un file list_name =
     (case file of None \<Rightarrow> [] | Some f \<Rightarrow> [parse_un_style_pdf f list_name])"

definition load_data :: "uploads \<Rightarrow> data_frame" where
  \<comment> \<open>step 2 of \<open>main\<close>: \<open>df_master\<close>\<close>
  "load_data u =
     (let data_frames =
            (case file_moha u of None \<Rightarrow> [] | Some f \<Rightarrow> [parse_kdn_pdf f])
            @ parsed_un (file_1267 u) ''UNSCR 1267 (ISIL/Al-Qaida)''
            @ parsed_un (file_1988 u) ''UNSCR 1988 (Taliban)''
            @ parsed_un (file_1718 u) ''UNSCR 1718 (DPRK)''
            @ parsed_un (file_2231 u) ''UNSCR 2231 (Iran)''
      in if data_frames \<noteq> [] then pd_concat data_frames else get_sample_data)"

datatype error = KeyError string | IndexError

record session_state =
  search_results :: "sanction_record list option"
  search_performed :: bool
  high_risk_matches :: "(string \<times> nat) list"

definition search_key :: "sanction_record \<Rightarrow> string" where
  \<comment> \<open>one value of \<open>df_master['Name'].astype(str) + " " + df_master['Aliases'].astype(str)\<close>\<close>
  "search_key r = Name r @ '' '' @ Aliases r"

definition add_search_vector :: "data_frame \<Rightarrow> error + data_frame" where
  \<comment> \<open>line 310; reading a column that the frame does not have raises \<open>KeyError\<close>\<close>
  "add_search_vector df =
     (if ''Name'' \<notin> set (df_columns df) then Inl (KeyError ''Name'')
      else if ''Aliases'' \<notin> set (df_columns df) then Inl (KeyError ''Aliases'')
      else Inr (df\<lparr>df_columns := (if ''Search_Vector'' \<in> set (df_columns df) then df_columns df
                                    else df_columns df @ [''Search_Vector'']),
                   df_search_vector := Some (map search_key (df_rows df))\<rparr>))"

definition fuzzy_matches :: "string \<Rightarrow> string list \<Rightarrow> (string \<times> nat) list" where
  \<comment> \<open>line 311\<close>
  "fuzzy_matches search_query search_vector =
     process_extract token_set_ratio search_query search_vector 10"

definition threshold :: nat where
  "threshold = 80"

definition high_risk :: "(string \<times> nat) list \<Rightarrow> (string \<times> nat) list" where
  \<comment> \<open>\<open>[m for m in matches if m[1] >= threshold]\<close>\<close>
  "high_risk matches = filter (\<lambda>m. snd m \<ge> threshold) matches"

fun first_index :: "string \<Rightarrow> string list \<Rightarrow> nat option" where
  \<comment> \<open>\<open>df_master[df_master['Search_Vector'] == key].index\<close>, its first element if any\<close>
  "first_index key [] = None"
| "first_index key (k # ks) =
     (if k = key then Some 0 else map_option Suc (first_index key ks))"

fun matched_rows ::
  "sanction_record list \<Rightarrow> string list \<Rightarrow> (string \<times> nat) list \<Rightarrow> error + sanction_record list" where
  \<comment> \<open>lines 321 and 322: one row per high-risk match, looked up by its search key\<close>
  "matched_rows rs sv [] = Inr []"
| "matched_rows rs sv (m # ms) =
     (case first_index (fst m) sv of
        None \<Rightarrow> Inl IndexError
      | Some i \<Rightarrow>
          (case matched_rows rs sv ms of
             Inl e \<Rightarrow> Inl e
           | Inr xs \<Rightarrow> Inr ((rs ! i) # xs)))"

record screen_result =
  df_master :: data_frame
  session :: session_state
  warning :: "string option"

definition search_logic ::
  "bool \<Rightarrow> string \<Rightarrow> data_frame \<Rightarrow> session_state \<Rightarrow> error + screen_result" where
  \<comment> \<open>step 5 of \<open>main\<close>, lines 306 to 327\<close>
  "search_logic search_btn search_query df st =
     (if search_btn then
        (if search_query \<noteq> [] then
           (case add_search_vector df of
              Inl e \<Rightarrow> Inl e
            | Inr df' \<Rightarrow>
                (let sv = map search_key (df_rows df');
                     matches = fuzzy_matches search_query sv;
                     hrm = high_risk matches;
                     st' = st\<lparr>search_performed := True, high_risk_matches := hrm\<rparr>
                 in if hrm \<noteq> [] then
                      (case matched_rows (df_rows df') sv hrm of
                         Inl e \<Rightarrow> Inl e
                       | Inr rs \<Rightarrow>
                           Inr \<lparr>df_master = df', session = st'\<lparr>search_results := Some rs\<rparr>,
                                warning = None\<rparr>)
                    else
                      Inr \<lparr>df_master = df', session = st'\<lparr>search_results := None\<rparr>,
                           warning = None\<rparr>))
         else
           Inr \<lparr>df_master = df, session = st\<lparr>search_performed := False\<rparr>,
                warning = Some ''Please enter a name to screen.''\<rparr>)
      else Inr \<lparr>df_master = df, session = st, warning = None\<rparr>)"

definition initial_session :: session_state where
  \<comment> \<open>the session state that \<open>main\<close> initialises on a first run\<close>
  "initial_session = \<lparr>search_results = None, search_performed = False, high_risk_matches = []\<rparr>"

definition main_screen :: "uploads \<Rightarrow> bool \<Rightarrow> string \<Rightarrow> session_state \<Rightarrow> error + screen_result" where
  \<comment> \<open>steps 2 and 5 of \<open>main\<close>: the frame is loaded, then the query is screened\<close>
  "main_screen u search_btn search_query st =
     search_logic search_btn search_query (load_data u) st"

section \<open>Auxiliary notions\<close>




definition page_rows :: "page \<Rightarrow> row list" where
  \<comment> \<open>all rows of all tables of a page that gives its tables\<close>
  "page_rows p = (case extract_tables p of Raises \<Rightarrow> [] | Returns ts \<Rightarrow> concat ts)"

definition kdn_step :: "nat \<Rightarrow> char \<Rightarrow> nat" where
  \<comment> \<open>one step of the scan for \<open>KDN\<close>: the state counts the letters matched so far\<close>
  "kdn_step st c =
     (if st = 3 then 3
      else if c = CHR ''K'' then 1
      else if c = CHR ''D'' \<and> st = 1 then 2
      else if c = CHR ''N'' \<and> st = 2 then 3
      else 0)"

definition kdn_cell :: "cell \<Rightarrow> bool" where
  \<comment> \<open>a cell that is a string containing \<open>KDN\<close>\<close>
  "kdn_cell c = (case c of None \<Rightarrow> False | Some t \<Rightarrow> contains ''KDN'' t)"

section \<open>Properties of the tabular extractor\<close>

lemma kdn_cell_test:
  "(truthy c \<and> contains ''KDN'' (str_cell c)) = (\<exists>t. c = Some t \<and> contains ''KDN'' t)"
  by (cases c) (auto simp: truthy_def str_cell_def)

lemma scan_ref_found:
  "\<forall>c\<in>set pre. \<forall>t. c = Some t \<longrightarrow> \<not> contains ''KDN'' t \<Longrightarrow> contains ''KDN'' s \<Longrightarrow>
   scan_ref (pre @ Some s # post) d = Some s"
proof (induction pre)
  case Nil
  then show ?case by (simp add: kdn_cell_test del: contains.simps)
next
  case (Cons c pre)
  then show ?case by (auto simp: kdn_cell_test simp del: contains.simps)
qed

lemma clean_cell_Some:
  "clean_cell sep dflt (Some s) = (if s = [] then dflt else replace [NL] sep s)"
  by (simp add: clean_cell_def truthy_def str_cell_def)

lemma clean_cell_None: "clean_cell sep dflt None = dflt"
  by (simp add: clean_cell_def truthy_def)

lemma replace_Unknown: "replace [NL] sep ''Unknown'' = ''Unknown''"
  by (simp add: NL_def)

lemma contains_Nil: "contains (a # as) [] = False"
  by simp

lemma kdn_done: "foldl kdn_step 3 s = 3"
  by (induction s) (simp_all add: kdn_step_def)

lemma kdn_after_D: "(foldl kdn_step 2 s = 3) = (take 1 s = ''N'' \<or> foldl kdn_step 0 s = 3)"
proof (cases s)
  case Nil
  then show ?thesis by simp
next
  case (Cons c cs)
  consider "c = CHR ''N''" | "c = CHR ''K''" | "c \<noteq> CHR ''N''" "c \<noteq> CHR ''K''" by blast
  then show ?thesis
  proof cases
    case 1
    then have "kdn_step 2 c = 3" "kdn_step 0 c = 0" by (simp_all add: kdn_step_def)
    with 1 Cons show ?thesis by (simp add: kdn_done)
  next
    case 2
    then have "kdn_step 2 c = 1" "kdn_step 0 c = 1" by (simp_all add: kdn_step_def)
    with 2 Cons show ?thesis by simp
  next
    case 3
    then have "kdn_step 2 c = 0" "kdn_step 0 c = 0" by (simp_all add: kdn_step_def)
    with 3 Cons show ?thesis by simp
  qed
qed

lemma kdn_after_K: "(foldl kdn_step 1 s = 3) = (take 2 s = ''DN'' \<or> foldl kdn_step 0 s = 3)"
proof (cases s)
  case Nil
  then show ?thesis by simp
next
  case (Cons c cs)
  consider "c = CHR ''D''" | "c = CHR ''K''" | "c \<noteq> CHR ''D''" "c \<noteq> CHR ''K''" by blast
  then show ?thesis
  proof cases
    case 1
    then have "kdn_step 1 c = 2" "kdn_step 0 c = 0" by (simp_all add: kdn_step_def)
    moreover have "(take 2 s = ''DN'') = (take 1 cs = ''N'')" using 1 Cons by simp
    ultimately show ?thesis using Cons by (simp add: kdn_after_D)
  next
    case 2
    then have "kdn_step 1 c = 1" "kdn_step 0 c = 1" by (simp_all add: kdn_step_def)
    with 2 Cons show ?thesis by simp
  next
    case 3
    then have "kdn_step 1 c = 0" "kdn_step 0 c = 0" by (simp_all add: kdn_step_def)
    with 3 Cons show ?thesis by simp
  qed
qed

lemma contains_KDN: "contains ''KDN'' s = (foldl kdn_step 0 s = 3)"
proof (induction s)
  case Nil
  then show ?case by simp
next
  case (Cons c cs)
  show ?case
  proof (cases "c = CHR ''K''")
    case True
    then have "kdn_step 0 c = 1" by (simp add: kdn_step_def)
    then have f: "foldl kdn_step 0 (c # cs) = foldl kdn_step 1 cs" by (simp only: foldl_Cons)
    have t: "(take (length ''KDN'') (c # cs) = ''KDN'') = (take 2 cs = ''DN'')"
      using True by (simp add: numeral_2_eq_2)
    have "contains ''KDN'' (c # cs) = (take 2 cs = ''DN'' \<or> foldl kdn_step 0 cs = 3)"
      by (simp only: contains.simps t Cons.IH)
    then show ?thesis by (simp only: f kdn_after_K)
  next
    case False
    then have "kdn_step 0 c = 0" by (simp add: kdn_step_def)
    moreover have "take (length ''KDN'') (c # cs) \<noteq> ''KDN''" using False by auto
    ultimately show ?thesis using Cons.IH False by simp
  qed
qed

lemma kdn_step_other:
  "c \<noteq> CHR ''K'' \<Longrightarrow> c \<noteq> CHR ''D'' \<Longrightarrow> c \<noteq> CHR ''N'' \<Longrightarrow>
   kdn_step st c = (if st = 3 then 3 else 0)"
  by (simp add: kdn_step_def)

lemma code_KDN: "code CHR ''K'' = 75" "code CHR ''D'' = 68" "code CHR ''N'' = 78"
  by (simp_all add: code_def)

lemma not_KDN:
  "code c \<noteq> 75 \<Longrightarrow> code c \<noteq> 68 \<Longrightarrow> code c \<noteq> 78 \<Longrightarrow>
   c \<noteq> CHR ''K'' \<and> c \<noteq> CHR ''D'' \<and> c \<noteq> CHR ''N''"
  using code_KDN by auto

lemma hex_digit_code: "d < 16 \<Longrightarrow> code (hex_digit d) = (if d < 10 then 48 + d else 87 + d)"
  by (simp add: hex_digit_def code_def)

lemma hex_digit_other:
  assumes "d < 16"
  shows "kdn_step st (hex_digit d) = (if st = 3 then 3 else 0)"
proof (rule kdn_step_other)
  from hex_digit_code [OF assms] assms
  have "code (hex_digit d) \<noteq> 75" "code (hex_digit d) \<noteq> 68" "code (hex_digit d) \<noteq> 78"
    by (auto split: if_splits)
  from not_KDN [OF this]
  show "hex_digit d \<noteq> CHR ''K''" "hex_digit d \<noteq> CHR ''D''" "hex_digit d \<noteq> CHR ''N''"
    by simp_all
qed

lemma code_less: "code c < 256"
  by (simp add: code_def)

lemma repr_char_steps:
  assumes q: "q = CHR 0x27 \<or> q = CHR 0x22"
  shows "foldl kdn_step st (repr_char q c) = kdn_step st c"
proof -
  have bs: "kdn_step s (CHR 0x5C) = (if s = 3 then 3 else 0)" for s
    by (simp add: kdn_step_def)
  have lt: "kdn_step s (CHR ''t'') = (if s = 3 then 3 else 0)"
       "kdn_step s (CHR ''n'') = (if s = 3 then 3 else 0)"
       "kdn_step s (CHR ''r'') = (if s = 3 then 3 else 0)"
       "kdn_step s (CHR ''x'') = (if s = 3 then 3 else 0)" for s
    by (simp_all add: kdn_step_def)
  have d1: "code c div 16 < 16" and d2: "code c mod 16 < 16"
    using code_less [of c] by simp_all
  consider (esc) "c = q \<or> code c = 92 \<or> code c = 9 \<or> code c = 10 \<or> code c = 13
            \<or> code c < 32 \<or> (127 \<le> code c \<and> code c \<le> 160) \<or> code c = 173"
    | (plain) "\<not> (c = q \<or> code c = 92 \<or> code c = 9 \<or> code c = 10 \<or> code c = 13
            \<or> code c < 32 \<or> (127 \<le> code c \<and> code c \<le> 160) \<or> code c = 173)"
    by blast
  then show ?thesis
  proof cases
    case esc
    have "code c \<noteq> 75 \<and> code c \<noteq> 68 \<and> code c \<noteq> 78"
      using esc q by (auto simp: code_def)
    then have c: "kdn_step s c = (if s = 3 then 3 else 0)" for s
      using not_KDN [of c] kdn_step_other [of c s] by blast
    have k: "kdn_step s q = (if s = 3 then 3 else 0)" for s
      using q by (auto simp: kdn_step_def)
    show ?thesis
      unfolding repr_char_def Let_def
      by (simp add: c k bs lt hex_digit_other [OF d1] hex_digit_other [OF d2])
  next
    case plain
    then have "repr_char q c = [c]" unfolding repr_char_def Let_def by auto
    then show ?thesis by simp
  qed
qed

lemma repr_body_steps:
  "q = CHR 0x27 \<or> q = CHR 0x22 \<Longrightarrow>
   foldl kdn_step st (concat (map (repr_char q) s)) = foldl kdn_step st s"
  by (induction s arbitrary: st) (simp_all add: repr_char_steps)

lemma repr_str_steps:
  "foldl kdn_step 0 (repr_str s) = (if contains ''KDN'' s then 3 else 0)"
proof -
  define q where "q = (if CHR 0x27 \<in> set s \<and> CHR 0x22 \<notin> set s then CHR 0x22 else CHR 0x27)"
  have q: "q = CHR 0x27 \<or> q = CHR 0x22" by (simp add: q_def)
  then have k: "kdn_step st q = (if st = 3 then 3 else 0)" for st
    by (auto simp: kdn_step_def)
  have "foldl kdn_step 0 (repr_str s) = kdn_step (foldl kdn_step 0 (concat (map (repr_char q) s))) q"
    by (simp add: repr_str_def q_def [symmetric] k)
  also have "\<dots> = kdn_step (foldl kdn_step 0 s) q" by (simp add: repr_body_steps [OF q])
  finally show ?thesis by (simp add: k contains_KDN)
qed

lemma repr_cell_steps:
  "foldl kdn_step 0 (repr_cell c) = (if kdn_cell c then 3 else 0)"
proof (cases c)
  case None
  then show ?thesis by (simp add: repr_cell_def kdn_cell_def kdn_step_def)
next
  case (Some t)
  then show ?thesis by (simp add: repr_cell_def kdn_cell_def repr_str_steps)
qed

lemma join_cells_steps:
  "foldl kdn_step 0 (join '', '' (map repr_cell r)) = (if \<exists>c\<in>set r. kdn_cell c then 3 else 0)"
proof (induction r)
  case Nil
  then show ?case by simp
next
  case (Cons c r)
  have sep: "foldl kdn_step 0 '', '' = 0" by (simp add: kdn_step_def)
  show ?case
  proof (cases r)
    case Nil
    then show ?thesis by (simp add: repr_cell_steps)
  next
    case (Cons d ds)
    then have "join '', '' (map repr_cell (c # r))
        = repr_cell c @ '', '' @ join '', '' (map repr_cell r)" by simp
    then have "foldl kdn_step 0 (join '', '' (map repr_cell (c # r)))
        = foldl kdn_step (foldl kdn_step (foldl kdn_step 0 (repr_cell c)) '', '')
            (join '', '' (map repr_cell r))"
      by (simp only: foldl_append)
    also have "\<dots> = (if kdn_cell c then 3 else foldl kdn_step 0 (join '', '' (map repr_cell r)))"
      by (simp add: repr_cell_steps kdn_done sep del: foldl_Cons)
    finally show ?thesis using Cons.IH by simp
  qed
qed

lemma str_row_KDN: "contains ''KDN'' (str_row r) = (\<exists>c\<in>set r. kdn_cell c)"
proof -
  have "foldl kdn_step 0 (str_row r)
      = kdn_step (foldl kdn_step 0 (join '', '' (map repr_cell r))) (CHR '']'')"
    by (simp add: str_row_def kdn_step_def)
  also have "\<dots> = (if \<exists>c\<in>set r. kdn_cell c then 3 else 0)"
    by (simp add: join_cells_steps kdn_step_def)
  finally show ?thesis by (simp add: contains_KDN)
qed

lemma qualifying_row_first_cell:
  assumes "contains ''KDN'' (str_row r)"
  shows "\<exists>pre s post. r = pre @ Some s # post \<and> contains ''KDN'' s
           \<and> (\<forall>c\<in>set pre. \<forall>t. c = Some t \<longrightarrow> \<not> contains ''KDN'' t)"
proof -
  from assms have "\<exists>c\<in>set r. kdn_cell c" by (simp only: str_row_KDN)
  from split_list_first_prop [OF this] obtain pre c post where
    r: "r = pre @ c # post" and c: "kdn_cell c" and pre: "\<forall>y\<in>set pre. \<not> kdn_cell y"
    by blast
  from c obtain s where s: "c = Some s" "contains ''KDN'' s"
    by (cases c) (simp_all add: kdn_cell_def)
  from pre have "\<forall>c\<in>set pre. \<forall>t. c = Some t \<longrightarrow> \<not> contains ''KDN'' t"
    by (auto simp: kdn_cell_def)
  with r s show ?thesis by blast
qed

text \<open>
  C6 (as amended). For a qualifying row, the name is the cell at index 2 with its line
  breaks replaced by spaces when the row has more than two cells and that cell is a
  non-empty string, \<open>N/A\<close> when the row has more than two cells and that cell is
  empty or \<open>None\<close>, and \<open>Unknown\<close> when the row has at most two cells. The
  reference number is the first cell, left to right, that contains \<open>KDN\<close>, with its
  line breaks replaced by \<open>" | "\<close>; a qualifying row always has such a cell, so the
  scan never falls back to another value.
\<close>

theorem kdn_row_name_reference:
  assumes "kdn_row r = Some x"
  shows "Name x = (if length r \<le> 2 then ''Unknown''
                   else case r ! 2 of None \<Rightarrow> ''N/A''
                        | Some s \<Rightarrow> if s = [] then ''N/A'' else replace [NL] '' '' s)
       \<and> (\<exists>pre s post. r = pre @ Some s # post \<and> contains ''KDN'' s
             \<and> (\<forall>c\<in>set pre. \<forall>t. c = Some t \<longrightarrow> \<not> contains ''KDN'' t)
             \<and> Reference_No x = replace [NL] '' | '' s)"
proof -
  from assms have x: "x = kdn_record r" and q: "contains ''KDN'' (str_row r)"
    by (simp_all add: kdn_row_def split: if_splits)
  have name: "Name x = (if length r \<le> 2 then ''Unknown''
                   else case r ! 2 of None \<Rightarrow> ''N/A''
                        | Some s \<Rightarrow> if s = [] then ''N/A'' else replace [NL] '' '' s)"
  proof (cases "length r \<le> 2")
    case True
    then show ?thesis
      by (simp add: x kdn_record_def Let_def clean_cell_Some replace_Unknown del: replace.simps)
  next
    case False
    then show ?thesis
      by (cases "r ! 2") (simp_all add: x kdn_record_def Let_def clean_cell_Some clean_cell_None)
  qed
  from qualifying_row_first_cell [OF q] obtain pre s post where
    r: "r = pre @ Some s # post" and s: "contains ''KDN'' s"
    and pre: "\<forall>c\<in>set pre. \<forall>t. c = Some t \<longrightarrow> \<not> contains ''KDN'' t"
    by blast
  have "scan_ref r (Some ''Unknown'') = Some s"
    using scan_ref_found [OF pre s] r by simp
  moreover have "s \<noteq> []" using s by auto
  ultimately have "Reference_No x = replace [NL] '' | '' s"
    by (simp add: x kdn_record_def Let_def clean_cell_Some)
  with name r s pre show ?thesis by blast
qed

theorem kdn_row_name_reference_witness:
  "kdn_row [Some ''1'', Some ''KDN.1.08-2014'', Some ''Halimah binti Hussein'']
     = Some (kdn_record [Some ''1'', Some ''KDN.1.08-2014'', Some ''Halimah binti Hussein''])
   \<and> Name (kdn_record [Some ''1'', Some ''KDN.1.08-2014'', Some ''Halimah binti Hussein''])
     = ''Halimah binti Hussein''
   \<and> (\<exists>pre s post.
        [Some ''1'', Some ''KDN.1.08-2014'', Some ''Halimah binti Hussein''] = pre @ Some s # post
        \<and> contains ''KDN'' s
        \<and> Reference_No (kdn_record [Some ''1'', Some ''KDN.1.08-2014'', Some ''Halimah binti Hussein''])
            = replace [NL] '' | '' s)"
proof -
  let ?r = "[Some ''1'', Some ''KDN.1.08-2014'', Some ''Halimah binti Hussein'']"
  have q: "kdn_row ?r = Some (kdn_record ?r)"
    by code_simp
  have r1: "replace [NL] '' '' ''Halimah binti Hussein'' = ''Halimah binti Hussein''" by code_simp
  from kdn_row_name_reference [OF q] have
    n: "Name (kdn_record ?r) = replace [NL] '' '' ''Halimah binti Hussein''"
    and f: "\<exists>pre s post. ?r = pre @ Some s # post \<and> contains ''KDN'' s
             \<and> (\<forall>c\<in>set pre. \<forall>t. c = Some t \<longrightarrow> \<not> contains ''KDN'' t)
             \<and> Reference_No (kdn_record ?r) = replace [NL] '' | '' s"
    by simp_all
  from f have "\<exists>pre s post. ?r = pre @ Some s # post \<and> contains ''KDN'' s
             \<and> Reference_No (kdn_record ?r) = replace [NL] '' | '' s"
    by blast
  with q n r1 show ?thesis by simp
qed

text \<open>
  C6 as stated fails: a qualifying row of two cells gets the name \<open>Unknown\<close>, the
  initial value of \<open>name\<close>, and not \<open>N/A\<close>.
\<close>

theorem kdn_short_row_name_counterexample:
  "map_option Name (kdn_row [Some ''KDN.1.08-2014'', Some ''x'']) = Some ''Unknown''
   \<and> map_option Name (kdn_row [Some ''KDN.1.08-2014'', Some ''x'']) \<noteq> Some ''N/A''"
  by code_simp

section \<open>Properties of the narrative extractor\<close>

text \<open>
  C4. The claim says that the name is the labelled text without the ordinal markers and
  without the filler token \<open>na\<close>. The source removes the filler with
  \<open>clean_name.replace('na', '')\<close>, which deletes the two letters wherever they occur:
  for the entry \<open>QDe.099 Name: International Relief Fund Name (original script): na\<close>
  the extracted name is \<open>Intertiol Relief Fund\<close>, where the labelled text
  \<open>International Relief Fund\<close> has neither a marker nor a filler token.
\<close>

theorem entry_name_removes_na_inside_words:
  "map Name (df_rows (parse_un_style_pdf
      (Returns [\<lparr>extract_text =
                   Returns (Some ''QDe.099 Name: International Relief Fund Name (original script): na''),
                  extract_tables = Returns []\<rparr>])
      ''UNSCR 1267 (ISIL/Al-Qaida)''))
   = [''Intertiol Relief Fund'']"
  by code_simp

text \<open>
  C5. The claim says that a fragment equal to \<open>na\<close> after trimming is discarded. The
  source tests \<open>len(a) > 2 and a.lower() != 'na'\<close> on the fragment before it is trimmed,
  so the fragment \<open>" na "\<close> passes the test and the alias \<open>na\<close> is kept.
\<close>

theorem entry_aliases_keeps_na:
  "map Aliases (df_rows (parse_un_style_pdf
      (Returns [\<lparr>extract_text =
                   Returns (Some ''QDi.001 Name: 1: ALI 2: na Title: na Low quality a.k.a.: na Nationality: Iraq''),
                  extract_tables = Returns []\<rparr>])
      ''UNSCR 1267 (ISIL/Al-Qaida)''))
   = [''na'']"
  by code_simp

section \<open>Properties of the screening step\<close>

text \<open>
  C3 (as amended). An empty query string is rejected before any matching: the warning is
  issued, \<open>search_performed\<close> is cleared, the stored results and high-risk matches are
  left as they were, and the frame is returned as it was given.
\<close>

theorem empty_query_rejected:
  "search_logic True [] df st =
     Inr \<lparr>df_master = df, session = st\<lparr>search_performed := False\<rparr>,
          warning = Some ''Please enter a name to screen.''\<rparr>"
  by (simp add: search_logic_def)

text \<open>
  C3 as stated fails: the source tests \<open>if search_query:\<close> and trims nowhere, so a query
  of one space is screened (against the sample data here) and no warning is issued.
\<close>

theorem blank_query_is_screened_counterexample:
  "(case main_screen
      \<lparr>file_moha = None, file_1267 = None, file_1988 = None, file_1718 = None, file_2231 = None\<rparr>
      True '' '' initial_session of
      Inl e \<Rightarrow> False
    | Inr out \<Rightarrow> search_performed (session out) \<and> warning out = None)"
  by code_simp

text \<open>
  C10. The claim says that screening an empty store ends without error and with no
  match. In the source an uploaded document that yields no record gives
  \<open>pd.DataFrame([])\<close>, a frame without columns, so line 310 raises \<open>KeyError\<close> when it
  reads \<open>df_master['Name']\<close>: here the one uploaded document cannot be opened.
\<close>

theorem empty_store_screening_raises:
  "main_screen
     \<lparr>file_moha = Some Raises, file_1267 = None, file_1988 = None, file_1718 = None,
      file_2231 = None\<rparr>
     True ''Abdul Basir Noorzai'' initial_session
   = Inl (KeyError ''Name'')"
  by code_simp

section \<open>Errors while a document is read\<close>

lemma read_pages_raises:
  "\<exists>p\<in>set ps. extract_text p = Raises \<Longrightarrow> read_pages ps full_text = Raises"
proof (induction ps arbitrary: full_text)
  case Nil
  then show ?case by simp
next
  case (Cons q ps)
  show ?case
  proof (cases "extract_text q")
    case Raises
    then show ?thesis by simp
  next
    case (Returns t)
    with Cons.prems have "\<exists>p\<in>set ps. extract_text p = Raises" by auto
    with Cons.IH Returns show ?thesis by simp
  qed
qed

lemma kdn_pages_stop:
  "extract_tables p = Raises \<Longrightarrow> kdn_pages (ps @ p # qs) data = kdn_pages ps data"
  by (induction ps arbitrary: data) (auto split: outcome.splits)

text \<open>
  C9 (as amended). No error of the document reader reaches the caller: both extractors
  return a frame. The narrative extractor returns the empty frame when the document
  cannot be opened or some page fails to give its text; all pages are read before the
  first record is built. The tabular extractor returns the empty frame when the document
  cannot be opened; when a page fails to give its tables, it returns what the pages before
  that page gave.
\<close>

theorem extraction_errors_are_swallowed:
  "parse_un_style_pdf Raises list_name = DataFrame []
   \<and> ((\<exists>p\<in>set ps. extract_text p = Raises)
        \<longrightarrow> parse_un_style_pdf (Returns ps) list_name = DataFrame [])
   \<and> parse_kdn_pdf Raises = DataFrame []
   \<and> (extract_tables p = Raises
        \<longrightarrow> parse_kdn_pdf (Returns (qs @ p # rest)) = parse_kdn_pdf (Returns qs))"
  by (simp add: parse_un_style_pdf_def parse_kdn_pdf_def read_pages_raises kdn_pages_stop)

theorem extraction_errors_are_swallowed_witness:
  "parse_un_style_pdf
     (Returns [\<lparr>extract_text = Returns (Some ''QDi.001 Name: X Title: na''), extract_tables = Returns []\<rparr>,
               \<lparr>extract_text = Raises, extract_tables = Returns []\<rparr>])
     ''UNSCR 1988 (Taliban)'' = DataFrame []
   \<and> parse_kdn_pdf
       (Returns ([] @ \<lparr>extract_text = Returns None, extract_tables = Raises\<rparr> # []))
     = parse_kdn_pdf (Returns [])"
  using extraction_errors_are_swallowed
    [where ps = "[\<lparr>extract_text = Returns (Some ''QDi.001 Name: X Title: na''), extract_tables = Returns []\<rparr>,
          \<lparr>extract_text = Raises, extract_tables = Returns []\<rparr>]"
       and list_name = "''UNSCR 1988 (Taliban)''"
       and p = "\<lparr>extract_text = Returns None, extract_tables = Raises\<rparr>"
       and qs = "[]" and rest = "[]"]
  by simp

text \<open>
  C9 as stated fails for the tabular extractor: \<open>data\<close> is filled page by page inside the
  \<open>try\<close> block and returned after the \<open>except\<close>, so the row of the first page stays when
  the second page raises.
\<close>

theorem tabular_error_keeps_rows_counterexample:
  "df_rows (parse_kdn_pdf
     (Returns [\<lparr>extract_text = Returns None,
                 extract_tables = Returns [[[Some ''1'', Some ''KDN.1.08-2014'', Some ''Halimah binti Hussein'']]]\<rparr>,
               \<lparr>extract_text = Returns None, extract_tables = Raises\<rparr>]))
   \<noteq> []"
  by code_simp

section \<open>Records of both extractors\<close>



















section \<open>Threshold and search key\<close>

lemma first_index_Some:
  "first_index key sv = Some i \<Longrightarrow> i < length sv \<and> sv ! i = key"
proof (induction sv arbitrary: i)
  case Nil
  then show ?case by simp
next
  case (Cons k ks)
  then show ?case by (cases "k = key") auto
qed

lemma first_index_mem: "key \<in> set sv \<Longrightarrow> \<exists>i. first_index key sv = Some i"
  by (induction sv) auto

lemma matched_rows_keys:
  "matched_rows rs (map search_key rs) ms = Inr xs \<Longrightarrow> map search_key xs = map fst ms"
proof (induction ms arbitrary: xs)
  case Nil
  then show ?case by simp
next
  case (Cons m ms)
  from Cons.prems obtain i ys where
    i: "first_index (fst m) (map search_key rs) = Some i"
    and ys: "matched_rows rs (map search_key rs) ms = Inr ys"
    and xs: "xs = (rs ! i) # ys"
    by (auto split: option.splits sum.splits)
  from first_index_Some [OF i] have "search_key (rs ! i) = fst m" by auto
  with Cons.IH [OF ys] xs show ?case by simp
qed

lemma matched_rows_total:
  "\<forall>m\<in>set ms. fst m \<in> set sv \<Longrightarrow> \<exists>xs. matched_rows rs sv ms = Inr xs"
proof (induction ms)
  case Nil
  then show ?case by simp
next
  case (Cons m ms)
  then obtain i xs where "first_index (fst m) sv = Some i" "matched_rows rs sv ms = Inr xs"
    using first_index_mem [of "fst m" sv] by auto
  then show ?case by simp
qed

lemma process_extract_subset:
  "set (process_extract scorer q cs n) \<subseteq> (\<lambda>c. (c, scorer q c)) ` set cs"
proof -
  have "set (process_extract scorer q cs n)
          \<subseteq> set (sort_key (\<lambda>m. - int (snd m)) (map (\<lambda>c. (c, scorer q c)) cs))"
    unfolding process_extract_def by (rule set_take_subset)
  then show ?thesis by simp
qed

lemma process_extract_length: "length (process_extract scorer q cs n) \<le> n"
  by (simp add: process_extract_def)

lemma high_risk_keys:
  "\<forall>m\<in>set (high_risk (fuzzy_matches q sv)). fst m \<in> set sv"
  using process_extract_subset [of token_set_ratio q sv 10]
  by (auto simp: high_risk_def fuzzy_matches_def)

lemma add_search_vector_ok:
  "''Name'' \<in> set (df_columns df) \<Longrightarrow> ''Aliases'' \<in> set (df_columns df) \<Longrightarrow>
   \<exists>df'. add_search_vector df = Inr df' \<and> df_rows df' = df_rows df
      \<and> df_search_vector df' = Some (map search_key (df_rows df))"
  by (simp add: add_search_vector_def)

lemma search_logic_screens:
  assumes q: "search_query \<noteq> []"
    and n: "''Name'' \<in> set (df_columns df)" and a: "''Aliases'' \<in> set (df_columns df)"
  shows "\<exists>out rs. search_logic True search_query df st = Inr out
     \<and> add_search_vector df = Inr (df_master out)
     \<and> search_performed (session out)
     \<and> warning out = None
     \<and> high_risk_matches (session out)
         = high_risk (fuzzy_matches search_query (map search_key (df_rows df)))
     \<and> matched_rows (df_rows df) (map search_key (df_rows df)) (high_risk_matches (session out)) = Inr rs
     \<and> search_results (session out) = (if high_risk_matches (session out) = [] then None else Some rs)"
proof -
  from add_search_vector_ok [OF n a] obtain df' where
    df': "add_search_vector df = Inr df'" "df_rows df' = df_rows df" by blast
  let ?sv = "map search_key (df_rows df)"
  let ?hrm = "high_risk (fuzzy_matches search_query ?sv)"
  from matched_rows_total [OF high_risk_keys [of search_query ?sv]]
  obtain rs where rs: "matched_rows (df_rows df) ?sv ?hrm = Inr rs" by blast
  show ?thesis
  proof (cases "?hrm = []")
    case True
    with q df' rs show ?thesis by (simp add: search_logic_def Let_def)
  next
    case False
    with q df' rs show ?thesis by (simp add: search_logic_def Let_def)
  qed
qed

lemma sample_columns:
  "''Name'' \<in> set (df_columns get_sample_data) \<and> ''Aliases'' \<in> set (df_columns get_sample_data)"
  by (simp add: get_sample_data_def DataFrame_def record_columns_def)

text \<open>
  C2. Whenever a query is screened, the candidates are at most ten, the high-risk
  matches are exactly the candidates with a score of at least 80 (a candidate with score
  80 is one, no candidate with score 79 is), and the rows stored as search results are
  the rows of the high-risk matches, in their order, and of no other candidate.
\<close>

theorem high_risk_threshold:
  assumes "search_query \<noteq> []"
    and "''Name'' \<in> set (df_columns df)" and "''Aliases'' \<in> set (df_columns df)"
  shows "\<exists>out. search_logic True search_query df st = Inr out
     \<and> length (fuzzy_matches search_query (map search_key (df_rows df))) \<le> 10
     \<and> high_risk_matches (session out)
         = filter (\<lambda>m. 80 \<le> snd m) (fuzzy_matches search_query (map search_key (df_rows df)))
     \<and> (\<forall>m. m \<in> set (high_risk_matches (session out))
            \<longleftrightarrow> m \<in> set (fuzzy_matches search_query (map search_key (df_rows df))) \<and> 80 \<le> snd m)
     \<and> (\<forall>k. (k, 80) \<in> set (fuzzy_matches search_query (map search_key (df_rows df)))
            \<longrightarrow> (k, 80) \<in> set (high_risk_matches (session out)))
     \<and> (\<forall>k. (k, 79) \<notin> set (high_risk_matches (session out)))
     \<and> (case search_results (session out) of
           None \<Rightarrow> high_risk_matches (session out) = []
         | Some rs \<Rightarrow> high_risk_matches (session out) \<noteq> []
             \<and> map search_key rs = map fst (high_risk_matches (session out)))"
proof -
  from search_logic_screens [OF assms, of st] obtain out rs where
    out: "search_logic True search_query df st = Inr out"
    and hrm: "high_risk_matches (session out)
         = high_risk (fuzzy_matches search_query (map search_key (df_rows df)))"
    and rs: "matched_rows (df_rows df) (map search_key (df_rows df)) (high_risk_matches (session out)) = Inr rs"
    and res: "search_results (session out) = (if high_risk_matches (session out) = [] then None else Some rs)"
    by blast
  have len: "length (fuzzy_matches search_query (map search_key (df_rows df))) \<le> 10"
    by (simp add: fuzzy_matches_def process_extract_length)
  have flt: "high_risk_matches (session out)
         = filter (\<lambda>m. 80 \<le> snd m) (fuzzy_matches search_query (map search_key (df_rows df)))"
    by (simp add: hrm high_risk_def threshold_def)
  have keys: "map search_key rs = map fst (high_risk_matches (session out))"
    by (rule matched_rows_keys [OF rs])
  have c: "(case search_results (session out) of
           None \<Rightarrow> high_risk_matches (session out) = []
         | Some rs \<Rightarrow> high_risk_matches (session out) \<noteq> []
             \<and> map search_key rs = map fst (high_risk_matches (session out)))"
    using res keys by simp
  have iff: "\<forall>m. m \<in> set (high_risk_matches (session out))
            \<longleftrightarrow> m \<in> set (fuzzy_matches search_query (map search_key (df_rows df))) \<and> 80 \<le> snd m"
    by (simp add: flt)
  have b80: "\<forall>k. (k, 80) \<in> set (fuzzy_matches search_query (map search_key (df_rows df)))
            \<longrightarrow> (k, 80) \<in> set (high_risk_matches (session out))"
    by (simp add: flt)
  have b79: "\<forall>k. (k, 79) \<notin> set (high_risk_matches (session out))"
    by (simp add: flt)
  from out len flt iff b80 b79 c show ?thesis by blast
qed

theorem high_risk_threshold_witness:
  "''RI WON HO'' \<noteq> [] \<and> ''Name'' \<in> set (df_columns get_sample_data)
   \<and> ''Aliases'' \<in> set (df_columns get_sample_data)
   \<and> (\<exists>out. search_logic True ''RI WON HO'' get_sample_data initial_session = Inr out
        \<and> length (fuzzy_matches ''RI WON HO'' (map search_key (df_rows get_sample_data))) \<le> 10
        \<and> (\<forall>k. (k, 79) \<notin> set (high_risk_matches (session out))))"
proof -
  have q: "''RI WON HO'' \<noteq> []" by simp
  from sample_columns have n: "''Name'' \<in> set (df_columns get_sample_data)"
    and a: "''Aliases'' \<in> set (df_columns get_sample_data)" by simp_all
  from high_risk_threshold [OF q n a, of initial_session] q n a show ?thesis by blast
qed



section \<open>All uploaded documents empty\<close>

text \<open>
  Screening an empty store fails whatever the documents and the query are: whenever the
  loaded frame has no rows, it has no columns either, and reading a column raises.
\<close>

lemma parse_kdn_pdf_frame: "\<exists>d. parse_kdn_pdf f = DataFrame d"
  unfolding parse_kdn_pdf_def by blast

lemma parse_un_style_pdf_frame: "\<exists>d. parse_un_style_pdf f l = DataFrame d"
  unfolding parse_un_style_pdf_def by blast

lemma DataFrame_no_rows: "df_rows (DataFrame d) = [] \<Longrightarrow> df_columns (DataFrame d) = []"
  by (simp add: DataFrame_def)

lemma pd_concat_no_rows:
  assumes "\<forall>f\<in>set fs. \<exists>d. f = DataFrame d" and "df_rows (pd_concat fs) = []"
  shows "df_columns (pd_concat fs) = []"
proof -
  have "df_columns f = []" if "f \<in> set fs" for f
  proof -
    from assms(1) that obtain d where d: "f = DataFrame d" by blast
    from assms(2) that have "df_rows f = []" by (auto simp: pd_concat_def)
    with d show ?thesis by (simp add: DataFrame_no_rows)
  qed
  then show ?thesis by (simp add: pd_concat_def)
qed

lemma load_data_no_rows:
  assumes "df_rows (load_data u) = []"
  shows "df_columns (load_data u) = []"
proof -
  let ?fs = "(case file_moha u of None \<Rightarrow> [] | Some f \<Rightarrow> [parse_kdn_pdf f])
            @ parsed_un (file_1267 u) ''UNSCR 1267 (ISIL/Al-Qaida)''
            @ parsed_un (file_1988 u) ''UNSCR 1988 (Taliban)''
            @ parsed_un (file_1718 u) ''UNSCR 1718 (DPRK)''
            @ parsed_un (file_2231 u) ''UNSCR 2231 (Iran)''"
  have frames: "\<forall>f\<in>set ?fs. \<exists>d. f = DataFrame d"
    using parse_kdn_pdf_frame parse_un_style_pdf_frame
    by (auto simp: parsed_un_def split: option.splits)
  show ?thesis
  proof (cases "?fs = []")
    case True
    then have "load_data u = get_sample_data" by (simp add: load_data_def Let_def)
    with assms show ?thesis by (simp add: get_sample_data_def DataFrame_def)
  next
    case False
    then have l: "load_data u = pd_concat ?fs" by (simp add: load_data_def Let_def)
    with assms pd_concat_no_rows [OF frames] show ?thesis by simp
  qed
qed

lemma empty_store_always_raises:
  assumes "df_rows (load_data u) = []" and "search_query \<noteq> []"
  shows "main_screen u True search_query st = Inl (KeyError ''Name'')"
  using load_data_no_rows [OF assms(1)] assms(2)
  by (simp add: main_screen_def search_logic_def add_search_vector_def)

section \<open>Screening with the exact name\<close>































end
